theory Spec2Isabelle
  imports Complex_Main "HOL-Library.Word"
begin

section \<open>Speech/text tool: a shallow embedding of \<open>src/main.py\<close>\<close>

text \<open>
  The program is a PyQt6 window around three libraries: \<open>pydub\<close> (audio segments),
  \<open>speech_recognition\<close> (microphone listener and recogniser) and \<open>pyaudio\<close>/\<open>audioop\<close>
  (raw capture and RMS). The functions of \<open>main.py\<close> are translated one by one; what a
  library call returns or raises is an explicit input of the model.

  Python \<open>str\<close> values are sequences of Unicode code points, so a string is a list of
  code points here. Literals of the source that are not ASCII are written as their code
  points.
\<close>

type_synonym pystr = "nat list"

definition ascii :: "string \<Rightarrow> pystr" where
  "ascii s = map of_char s"

subsection \<open>History (\<open>MainWindow.__init__\<close>, \<open>MainWindow.add_history\<close>)\<close>

text \<open>
  \<open>self.history = deque(maxlen=10)\<close>; \<open>appendleft\<close> on a full bounded deque drops the
  element at the right end. The deque is a list with its left end first.
\<close>

definition history_maxlen :: nat where
  "history_maxlen = 10"

definition appendleft :: "'a \<Rightarrow> 'a list \<Rightarrow> 'a list" where
  "appendleft x d = take history_maxlen (x # d)"

text \<open>\<open>line = f"[{stamp}] {entry}"\<close>, with \<open>stamp\<close> the clock reading \<open>%H:%M:%S\<close>.\<close>

definition history_line :: "pystr \<Rightarrow> pystr \<Rightarrow> pystr" where
  "history_line stamp entry = ascii ''['' @ stamp @ ascii ''] '' @ entry"

text \<open>
  The part of the window that \<open>add_history\<close> touches: the deque and the list widget
  showing it (\<open>history_list.clear(); history_list.addItems(self.history)\<close>).
\<close>

record history_state =
  history :: "pystr list"
  history_list :: "pystr list"

definition init_history :: history_state where
  "init_history = \<lparr>history = [], history_list = []\<rparr>"

definition add_history :: "pystr \<Rightarrow> pystr \<Rightarrow> history_state \<Rightarrow> history_state" where
  "add_history stamp entry w =
     (let line = history_line stamp entry;
          h = appendleft line (history w)
      in w\<lparr>history := h, history_list := h\<rparr>)"

text \<open>A sequence of additions, each with the clock reading at its call.\<close>

fun add_history_all :: "(pystr \<times> pystr) list \<Rightarrow> history_state \<Rightarrow> history_state" where
  "add_history_all [] w = w"
| "add_history_all ((stamp, entry) # es) w = add_history_all es (add_history stamp entry w)"

subsection \<open>Audio segments (\<open>pydub.AudioSegment\<close>) and \<open>speed_change\<close>\<close>

text \<open>
  A segment is its raw PCM bytes with the three labels pydub keeps beside them.
  \<open>AudioSegment.from_file\<close> yields a well-formed one: a sample width of 1, 2 or 4 bytes,
  at least one channel (few enough for four bytes per channel to fit a C \<open>int\<close>),
  whole frames, and a positive frame rate that fits a C \<open>int\<close>.
\<close>

record segment =
  raw_data :: "8 word list"
  sample_width :: nat
  channels :: nat
  frame_rate :: int

definition wf_segment :: "segment \<Rightarrow> bool" where
  "wf_segment seg \<longleftrightarrow>
     sample_width seg \<in> {1, 2, 4} \<and> 1 \<le> channels seg \<and> channels seg \<le> 536870911
     \<and> length (raw_data seg) mod (sample_width seg * channels seg) = 0
     \<and> 1 \<le> frame_rate seg \<and> frame_rate seg \<le> 2147483647"

datatype error = AudioopError | OverflowError | MemoryError | ValueError

text \<open>
  Python floats are IEEE doubles. A finite double is \<open>m \<times> 2\<^sup>e\<close> for integers \<open>m\<close> and
  \<open>e\<close>; \<open>Finite m e\<close> stands for that value (the sign of zero is not kept, nothing
  here depends on it).
\<close>

datatype pyfloat = Finite int int | PosInf | NegInf | NaN

definition finite_value :: "int \<Rightarrow> int \<Rightarrow> real" where
  "finite_value m e =
     (if 0 \<le> e then real_of_int m * 2 ^ nat e else real_of_int m / 2 ^ nat (- e))"

fun bitlen :: "nat \<Rightarrow> nat" where
  "bitlen n = (if n = 0 then 0 else Suc (bitlen (n div 2)))"

declare bitlen.simps [simp del]

text \<open>\<open>n / 2\<^sup>k\<close> rounded to the nearest integer, ties to the even one.\<close>

definition rne_div :: "int \<Rightarrow> nat \<Rightarrow> int" where
  "rne_div n k =
     (if k = 0 then n
      else let q = n div 2 ^ k; r = n mod 2 ^ k; h = 2 ^ (k - 1)
           in if r < h then q else if h < r then q + 1 else if even q then q else q + 1)"

text \<open>
  The double nearest to \<open>n \<times> 2\<^sup>e\<close> (round to nearest, ties to even): 53 significant
  bits, no quantum below \<open>2\<^sup>-\<^sup>1\<^sup>0\<^sup>7\<^sup>4\<close>, and infinity from \<open>2\<^sup>1\<^sup>0\<^sup>2\<^sup>4\<close> on.
\<close>

definition round_double :: "int \<Rightarrow> int \<Rightarrow> pyfloat" where
  "round_double n e =
     (if n = 0 then Finite 0 0
      else
        let b = int (bitlen (nat \<bar>n\<bar>));
            q = max (b + e - 53) (- 1074)
        in if q \<le> e then
             (if 1024 < b + e then (if 0 < n then PosInf else NegInf) else Finite n e)
           else
             let n' = rne_div n (nat (q - e))
             in if n' = 0 then Finite 0 0
                else if 1024 < int (bitlen (nat \<bar>n'\<bar>)) + q
                  then (if 0 < n' then PosInf else NegInf)
                else Finite n' q)"

text \<open>
  \<open>int * float\<close> converts the integer to a double first; Python raises
  \<open>OverflowError\<close> when it is too large for one.
\<close>

definition double_of_int :: "int \<Rightarrow> error + pyfloat" where
  "double_of_int n =
     (case round_double n 0 of
        Finite m e \<Rightarrow> Inr (Finite m e)
      | PosInf \<Rightarrow> Inl OverflowError
      | NegInf \<Rightarrow> Inl OverflowError
      | NaN \<Rightarrow> Inl OverflowError)"

definition inf_of_sign :: "int \<Rightarrow> pyfloat" where
  "inf_of_sign s = (if 0 < s then PosInf else if s < 0 then NegInf else NaN)"

fun double_mul :: "pyfloat \<Rightarrow> pyfloat \<Rightarrow> pyfloat" where
  "double_mul NaN y = NaN"
| "double_mul x NaN = NaN"
| "double_mul (Finite a ea) (Finite b eb) = round_double (a * b) (ea + eb)"
| "double_mul (Finite a ea) PosInf = inf_of_sign (sgn a)"
| "double_mul (Finite a ea) NegInf = inf_of_sign (- sgn a)"
| "double_mul PosInf (Finite b eb) = inf_of_sign (sgn b)"
| "double_mul NegInf (Finite b eb) = inf_of_sign (- sgn b)"
| "double_mul PosInf PosInf = PosInf"
| "double_mul PosInf NegInf = NegInf"
| "double_mul NegInf PosInf = NegInf"
| "double_mul NegInf NegInf = PosInf"

text \<open>
  Python's \<open>int(x)\<close> on a float: truncation towards zero, \<open>OverflowError\<close> on an
  infinity and \<open>ValueError\<close> on a NaN.
\<close>

definition py_int_float :: "pyfloat \<Rightarrow> error + int" where
  "py_int_float x =
     (case x of
        Finite m e \<Rightarrow>
          Inr (if 0 \<le> e then m * 2 ^ nat e
               else if 0 \<le> m then m div 2 ^ nat (- e)
               else - ((- m) div 2 ^ nat (- e)))
      | PosInf \<Rightarrow> Inl OverflowError
      | NegInf \<Rightarrow> Inl OverflowError
      | NaN \<Rightarrow> Inl ValueError)"

text \<open>The same truncation for a real number, used where the value is known to be finite.\<close>

definition py_int :: "real \<Rightarrow> int" where
  "py_int x = (if 0 \<le> x then \<lfloor>x\<rfloor> else \<lceil>x\<rceil>)"

text \<open>
  What the audio library supplies: the resampled bytes of \<open>audioop.ratecv\<close> (its
  interpolation is not modelled), and whether the allocator grants a buffer of a given
  number of bytes.
\<close>

type_synonym resampler = "8 word list \<Rightarrow> nat \<Rightarrow> nat \<Rightarrow> int \<Rightarrow> int \<Rightarrow> 8 word list"

record audio_lib =
  resample :: resampler
  alloc_ok :: "nat \<Rightarrow> bool"

definition c_int_range :: "int \<Rightarrow> bool" where
  "c_int_range n \<longleftrightarrow> - 2147483648 \<le> n \<and> n \<le> 2147483647"

text \<open>
  The buffers of \<open>ratecv\<close> (64-bit build). The rates are divided by their greatest
  common divisor; two arrays of one C \<open>int\<close> per channel are allocated; for \<open>len\<close>
  input frames the output buffer has \<open>q \<times> outrate \<times> bytes_per_frame\<close> bytes with
  \<open>q = 1 + (len - 1) / inrate\<close>, refused beyond \<open>PY_SSIZE_T_MAX\<close>.
\<close>

definition ratecv_memory_ok :: "audio_lib \<Rightarrow> 8 word list \<Rightarrow> nat \<Rightarrow> nat \<Rightarrow> int \<Rightarrow> int \<Rightarrow> bool" where
  "ratecv_memory_ok lib fragment width nchannels inrate outrate =
     (let d = gcd inrate outrate;
          inr = nat (inrate div d);
          outr = nat (outrate div d);
          bytes_per_frame = width * nchannels;
          len = length fragment div bytes_per_frame
      in alloc_ok lib (nchannels * 4)
         \<and> (if len = 0 then True
            else let q = 1 + (len - 1) div inr
                 in outr \<le> 9223372036854775807 div q div bytes_per_frame
                    \<and> alloc_ok lib (q * outr * bytes_per_frame)))"

text \<open>
  \<open>audioop.ratecv(fragment, width, nchannels, inrate, outrate, None)\<close>. Its argument
  conversion raises \<open>OverflowError\<close> for an argument outside the C \<open>int\<close> range; its
  body raises \<open>audioop.error\<close> for a bad width, a channel count below 1, a fragment that
  is not a whole number of frames, or a rate that is not positive, \<open>OverflowError\<close> when
  \<open>width \<times> nchannels\<close> does not fit a C \<open>int\<close>, and \<open>MemoryError\<close> when a buffer
  cannot be had.
\<close>

definition ratecv :: "audio_lib \<Rightarrow> 8 word list \<Rightarrow> nat \<Rightarrow> nat \<Rightarrow> int \<Rightarrow> int \<Rightarrow> error + 8 word list" where
  "ratecv lib fragment width nchannels inrate outrate =
     (if \<not> c_int_range (int width) \<or> \<not> c_int_range (int nchannels)
         \<or> \<not> c_int_range inrate \<or> \<not> c_int_range outrate then Inl OverflowError
      else if width < 1 \<or> 4 < width then Inl AudioopError
      else if nchannels < 1 then Inl AudioopError
      else if 2147483647 div nchannels < width then Inl OverflowError
      else if length fragment mod (width * nchannels) \<noteq> 0 then Inl AudioopError
      else if inrate \<le> 0 \<or> outrate \<le> 0 then Inl AudioopError
      else if \<not> ratecv_memory_ok lib fragment width nchannels inrate outrate then Inl MemoryError
      else Inr (resample lib fragment width nchannels inrate outrate))"

text \<open>\<open>segment._spawn(data, overrides={"frame_rate": r})\<close>: same labels, new data and rate.\<close>

definition spawn :: "segment \<Rightarrow> 8 word list \<Rightarrow> int \<Rightarrow> segment" where
  "spawn seg data r = seg\<lparr>raw_data := data, frame_rate := r\<rparr>"

text \<open>
  \<open>AudioSegment.set_frame_rate\<close>: the segment itself when the rate is already the one
  asked for; otherwise the data resampled by \<open>ratecv\<close> (empty data is left alone) and
  relabelled.
\<close>

definition set_frame_rate :: "audio_lib \<Rightarrow> segment \<Rightarrow> int \<Rightarrow> error + segment" where
  "set_frame_rate lib seg r =
     (if r = frame_rate seg then Inr seg
      else if raw_data seg \<noteq> [] then
        (case ratecv lib (raw_data seg) (sample_width seg) (channels seg) (frame_rate seg) r of
           Inl e \<Rightarrow> Inl e
         | Inr converted \<Rightarrow> Inr (spawn seg converted r))
      else Inr (spawn seg (raw_data seg) r))"

text \<open>
  \<open>new_sr = int(segment.frame_rate * factor)\<close>: the rate as a double, the double
  product, and its truncation.
\<close>

definition new_sr :: "segment \<Rightarrow> pyfloat \<Rightarrow> error + int" where
  "new_sr seg factor =
     (case double_of_int (frame_rate seg) of
        Inl e \<Rightarrow> Inl e
      | Inr r \<Rightarrow> py_int_float (double_mul r factor))"

definition speed_change :: "audio_lib \<Rightarrow> segment \<Rightarrow> pyfloat \<Rightarrow> error + segment" where
  "speed_change lib seg factor =
     (case new_sr seg factor of
        Inl e \<Rightarrow> Inl e
      | Inr n \<Rightarrow> set_frame_rate lib (spawn seg (raw_data seg) n) (frame_rate seg))"

text \<open>
  The spec's wording of the intermediate rate: the nearest integer to \<open>rate \<times> factor\<close>,
  for a finite factor \<open>m \<times> 2\<^sup>e\<close>.
\<close>

definition spec_new_rate :: "int \<Rightarrow> int \<Rightarrow> int \<Rightarrow> int" where
  "spec_new_rate r m e = round (real_of_int r * finite_value m e)"

text \<open>
  For concrete runs: one 16-bit mono frame at 24000 Hz and at 11025 Hz, and a library
  whose resampler returns its input twice over and whose allocator grants up to a mebibyte.
\<close>

definition seg_24k :: segment where
  "seg_24k = \<lparr>raw_data = [0, 0], sample_width = 2, channels = 1, frame_rate = 24000\<rparr>"

definition seg_11k :: segment where
  "seg_11k = \<lparr>raw_data = [0, 0], sample_width = 2, channels = 1, frame_rate = 11025\<rparr>"

definition small_lib :: audio_lib where
  "small_lib = \<lparr>resample = (\<lambda>d w c i r. d @ d), alloc_ok = (\<lambda>n. n \<le> 1048576)\<rparr>"

subsection \<open>\<open>volume_gain_db\<close>\<close>

text \<open>
  \<open>volume_factor = max(0.1, min(volume_factor, 2.0)); return 20 * math.log10(volume_factor)\<close>.
  Floats are modelled by the reals, so \<open>0.1\<close> is one tenth and \<open>log10\<close> is exact.
\<close>

definition volume_gain_db :: "real \<Rightarrow> real" where
  "volume_gain_db volume_factor = 20 * log 10 (max (1 / 10) (min volume_factor 2))"

text \<open>The spec's \<open>clamp\<close>: the value restricted to the interval from \<open>lo\<close> to \<open>hi\<close>.\<close>

definition clamp :: "real \<Rightarrow> real \<Rightarrow> real \<Rightarrow> real" where
  "clamp v lo hi = (if v < lo then lo else if hi < v then hi else v)"

subsection \<open>Recognition callback (\<open>callback\<close> in \<open>MainWindow.start_recording\<close>)\<close>

text \<open>
  \<open>recognizer.recognize_google(audio, language=lang_code)\<close> returns the text or raises.
  The exceptions are the two classes the callback names and any other \<open>Exception\<close>,
  kept with its \<open>str()\<close>. A value \<open>Inl e\<close> is the exception raised, \<open>Inr text\<close> the
  text returned.
\<close>

datatype py_exception = UnknownValueError | RequestError pystr | OtherException pystr

record stt_window =
  hist :: history_state
  stt_text :: "pystr list"

text \<open>
  The three literals of the handlers. \<open>entry_unknown\<close> is \<open>"STT: "\<close> followed by the
  Ukrainian for "could not recognise the phrase", \<open>entry_request\<close> is \<open>"STT: "\<close> followed
  by "problem connecting to the service", and \<open>pomylka\<close> is the word for "error".
\<close>

definition entry_unknown :: pystr where
  "entry_unknown = ascii ''STT: '' @
     [1085, 1077, 32, 1074, 1076, 1072, 1083, 1086, 1089, 1103, 32, 1088, 1086, 1079, 1087,
      1110, 1079, 1085, 1072, 1090, 1080, 32, 1092, 1088, 1072, 1079, 1091]"

definition entry_request :: pystr where
  "entry_request = ascii ''STT: '' @
     [1087, 1088, 1086, 1073, 1083, 1077, 1084, 1072, 32, 1079, 32, 1087, 1110, 1076, 1082,
      1083, 1102, 1095, 1077, 1085, 1085, 1103, 1084, 32, 1076, 1086, 32, 1089, 1077, 1088,
      1074, 1110, 1089, 1091]"

definition pomylka :: pystr where
  "pomylka = [1087, 1086, 1084, 1080, 1083, 1082, 1072]"

definition entry_text :: "pystr \<Rightarrow> pystr \<Rightarrow> pystr" where
  "entry_text lang_code text = ascii ''STT ['' @ lang_code @ ascii '']: '' @ text"

definition entry_failed :: "pystr \<Rightarrow> pystr" where
  "entry_failed exc = ascii ''STT '' @ pomylka @ ascii '': '' @ exc"

text \<open>
  The callback: the \<open>try\<close> body on a returned text, one handler per exception class, in
  the source's order. No branch re-raises, so every branch is an \<open>Inr\<close>; an \<open>Inl\<close>
  would be an exception leaving the callback.
\<close>

definition callback :: "pystr \<Rightarrow> pystr \<Rightarrow> py_exception + pystr \<Rightarrow> stt_window
    \<Rightarrow> py_exception + stt_window" where
  "callback lang_code stamp res w =
     (case res of
        Inr text \<Rightarrow>
          Inr (w\<lparr>stt_text := stt_text w @ [text],
                hist := add_history stamp (entry_text lang_code text) (hist w)\<rparr>)
      | Inl UnknownValueError \<Rightarrow>
          Inr (w\<lparr>hist := add_history stamp entry_unknown (hist w)\<rparr>)
      | Inl (RequestError m) \<Rightarrow>
          Inr (w\<lparr>hist := add_history stamp entry_request (hist w)\<rparr>)
      | Inl (OtherException exc_inner) \<Rightarrow>
          Inr (w\<lparr>hist := add_history stamp (entry_failed exc_inner) (hist w)\<rparr>))"

text \<open>
  The background listener calls the callback once per utterance, in order; an exception
  leaving the callback would end the listener thread, and the remaining utterances with
  it.
\<close>

fun listen_all :: "pystr \<Rightarrow> (pystr \<times> (py_exception + pystr)) list \<Rightarrow> stt_window
    \<Rightarrow> py_exception + stt_window" where
  "listen_all lang_code [] w = Inr w"
| "listen_all lang_code ((stamp, res) # rs) w =
     (case callback lang_code stamp res w of
        Inl e \<Rightarrow> Inl e
      | Inr w' \<Rightarrow> listen_all lang_code rs w')"

text \<open>
  The spec's outcomes and its mapping from what the service did to an outcome; and the
  history entry by which the program shows each outcome.
\<close>

datatype recognition_outcome = Recognized pystr | Inaudible | ServiceUnavailable | Failed pystr

fun spec_outcome :: "py_exception + pystr \<Rightarrow> recognition_outcome" where
  "spec_outcome (Inr text) = Recognized text"
| "spec_outcome (Inl UnknownValueError) = Inaudible"
| "spec_outcome (Inl (RequestError m)) = ServiceUnavailable"
| "spec_outcome (Inl (OtherException m)) = Failed m"

fun outcome_entry :: "pystr \<Rightarrow> recognition_outcome \<Rightarrow> pystr" where
  "outcome_entry lang_code (Recognized text) = entry_text lang_code text"
| "outcome_entry lang_code Inaudible = entry_unknown"
| "outcome_entry lang_code ServiceUnavailable = entry_request"
| "outcome_entry lang_code (Failed m) = entry_failed m"

subsection \<open>\<open>MainWindow.play_tts\<close>\<close>

text \<open>
  \<open>str.strip()\<close> removes the leading and trailing characters for which \<open>str.isspace\<close>
  holds: the code points below.
\<close>

definition py_isspace :: "nat \<Rightarrow> bool" where
  "py_isspace c \<longleftrightarrow>
     (9 \<le> c \<and> c \<le> 13) \<or> (28 \<le> c \<and> c \<le> 32) \<or> c = 133 \<or> c = 160 \<or> c = 5760
     \<or> (8192 \<le> c \<and> c \<le> 8202) \<or> c = 8232 \<or> c = 8233 \<or> c = 8239 \<or> c = 8287 \<or> c = 12288"

definition strip :: "pystr \<Rightarrow> pystr" where
  "strip s = rev (dropWhile py_isspace (rev (dropWhile py_isspace s)))"

text \<open>
  The widgets and fields \<open>play_tts\<close> reads and writes, the request handed to
  \<open>TTSWorker\<close>, and what the call does to the outside: a message box, the save dialog,
  writing the settings, starting the worker thread. The synthesis service (\<open>gTTS\<close>) is
  contacted only in \<open>TTSWorker.run\<close>, that is, only by a started worker.
\<close>

record tts_request =
  req_text :: pystr
  req_lang_code :: pystr
  req_speed_factor :: real
  req_volume_factor :: real
  req_save_path :: "pystr option"

datatype effect = WarningBox | CriticalBox | SaveFileDialog | SaveSettings | WorkerStart tts_request

record tts_window =
  tts_text :: pystr
  tts_lang :: pystr
  speed_combo :: real
  volume_slider :: int
  last_save_dir :: pystr
  should_play :: bool
  tts_status :: pystr
  tts_progress :: bool
  btn_play :: bool
  btn_save_mp3 :: bool
  tts_worker :: "tts_request option"

text \<open>\<open>"Gotuyu audio..."\<close>, the status text set before the worker starts.\<close>

definition status_preparing :: pystr where
  "status_preparing =
     [1043, 1086, 1090, 1091, 1102, 32, 1072, 1091, 1076, 1110, 1086, 46, 46, 46]"

text \<open>
  \<open>target\<close> is what the save dialog returns (empty when cancelled) and \<open>parent\<close> is
  \<open>Path(target).parent\<close>; both are read only when \<open>save_only\<close> holds.
\<close>

definition play_tts :: "pystr \<Rightarrow> pystr \<Rightarrow> bool \<Rightarrow> tts_window \<Rightarrow> tts_window \<times> effect list" where
  "play_tts target parent save_only w =
     (let text = strip (tts_text w) in
      if text = [] then (w, [WarningBox])
      else if save_only \<and> target = [] then (w, [SaveFileDialog])
      else
        let save_path = (if save_only then Some target else None);
            w1 = (if save_only then w\<lparr>last_save_dir := parent\<rparr> else w);
            pre = (if save_only then [SaveFileDialog, SaveSettings] else []);
            req = \<lparr>req_text = text, req_lang_code = tts_lang w,
                   req_speed_factor = speed_combo w,
                   req_volume_factor = real_of_int (volume_slider w) / 100,
                   req_save_path = save_path\<rparr>
        in (w1\<lparr>tts_status := status_preparing, tts_progress := True,
                btn_play := False, btn_save_mp3 := False,
                should_play := \<not> save_only, tts_worker := Some req\<rparr>,
            pre @ [WorkerStart req]))"

subsection \<open>Capture: \<open>start_recording\<close>, \<open>start_vu_meter\<close>, \<open>stop_vu_meter\<close>, \<open>update_vu_level\<close>\<close>

text \<open>
  The fields of the window these methods use, and \<open>open_streams\<close>: the input streams
  that are open on the audio devices, each with the consumer that opened it and the
  device index. The listener's stream is the one \<open>sr.Microphone\<close> opens inside
  \<open>listen_in_background\<close>; the meter's is \<open>self.vu_stream\<close>.
\<close>

datatype stream_owner = Listener | VuMeter

record capture_window =
  stt_stop :: bool
  active_mics :: "(int \<times> pystr) list"
  mic_combo :: "int option"
  stt_status :: pystr
  stt_progress :: bool
  btn_start :: bool
  btn_stop :: bool
  vu_audio :: bool
  vu_stream :: "int option"
  vu_timer :: bool
  vu_meter :: int
  open_streams :: "(stream_owner \<times> int) list"

text \<open>
  What the audio libraries do when called: whether \<open>sr.Microphone(device_index=...)\<close>
  is built without raising, whether \<open>pyaudio.PyAudio()\<close> succeeds, whether the device
  query and its rate are had, whether the meter's \<open>open\<close> succeeds, whether the meter's
  stream gets closed when the meter is stopped (by \<open>stop_stream\<close> and \<open>close\<close>, or by
  \<open>terminate\<close>), and whether the listener's stream opens.
\<close>

record capture_env =
  mic_init_ok :: bool
  pyaudio_ok :: bool
  device_info_ok :: bool
  vu_open_ok :: bool
  vu_close_ok :: bool
  listener_open_ok :: bool

text \<open>
  \<open>stop_vu_meter\<close> swallows every exception of the closing calls and clears the
  fields whatever happened.
\<close>

definition stop_vu_meter :: "capture_env \<Rightarrow> capture_window \<Rightarrow> capture_window" where
  "stop_vu_meter env w =
     w\<lparr>vu_timer := False, vu_stream := None, vu_audio := False, vu_meter := 0,
       open_streams := (case vu_stream w of
                          None \<Rightarrow> open_streams w
                        | Some d \<Rightarrow>
                            if vu_close_ok env then remove1 (VuMeter, d) (open_streams w)
                            else open_streams w)\<rparr>"

text \<open>
  \<open>start_vu_meter\<close>: in the \<open>try\<close>, \<open>self.vu_audio\<close> is assigned as soon as
  \<open>PyAudio()\<close> returns, so it stays set when a later call raises; the handler only
  sets the meter to 0.
\<close>

definition start_vu_meter :: "capture_env \<Rightarrow> int option \<Rightarrow> capture_window \<Rightarrow> capture_window" where
  "start_vu_meter env device_index w =
     (let w0 = stop_vu_meter env w in
      case device_index of
        None \<Rightarrow> w0
      | Some d \<Rightarrow>
          if \<not> pyaudio_ok env then w0\<lparr>vu_meter := 0\<rparr>
          else if \<not> device_info_ok env then w0\<lparr>vu_audio := True, vu_meter := 0\<rparr>
          else if \<not> vu_open_ok env then w0\<lparr>vu_audio := True, vu_meter := 0\<rparr>
          else w0\<lparr>vu_audio := True, vu_stream := Some d, vu_timer := True,
                  open_streams := open_streams w0 @ [(VuMeter, d)]\<rparr>)"

text \<open>The meter's stream is opened when all three calls of the \<open>try\<close> succeed.\<close>

definition meter_opens :: "capture_env \<Rightarrow> bool" where
  "meter_opens env \<longleftrightarrow> pyaudio_ok env \<and> device_info_ok env \<and> vu_open_ok env"

text \<open>\<open>"Slukhayu..."\<close>, the status text while listening.\<close>

definition status_listening :: pystr where
  "status_listening = [1057, 1083, 1091, 1093, 1072, 1102, 46, 46, 46]"

definition start_recording :: "capture_env \<Rightarrow> capture_window \<Rightarrow> capture_window \<times> effect list" where
  "start_recording env w =
     (if stt_stop w then (w, [])
      else case mic_combo w of
        None \<Rightarrow> (w, [CriticalBox])
      | Some mic_index \<Rightarrow>
          if active_mics w = [] then (w, [CriticalBox])
          else if \<not> mic_init_ok env then (w, [CriticalBox])
          else
            let w1 = w\<lparr>stt_status := status_listening, stt_progress := True,
                        btn_start := False, btn_stop := True\<rparr>;
                w2 = start_vu_meter env (Some mic_index) w1
            in (w2\<lparr>stt_stop := True,
                    open_streams := open_streams w2
                      @ (if listener_open_ok env then [(Listener, mic_index)] else [])\<rparr>,
                []))"

text \<open>
  \<open>audioop.rms(data, 2)\<close>: the fragment must be a whole number of 2-byte samples
  (else \<open>audioop.error\<close>); the samples are little-endian signed 16-bit; the result is
  \<open>(unsigned int) sqrt(sum_squares / n)\<close>, and 0 for an empty fragment. \<open>isqrt\<close> is
  the integer square root, so that the value can be computed.
\<close>

fun isqrt :: "nat \<Rightarrow> nat" where
  "isqrt n =
     (if n < 4 then (if n = 0 then 0 else 1)
      else let r = 2 * isqrt (n div 4) in if (r + 1) * (r + 1) \<le> n then r + 1 else r)"

declare isqrt.simps [simp del]

fun samples16 :: "8 word list \<Rightarrow> int list" where
  "samples16 (lo # hi # rest) =
     (let u = int (unat lo) + 256 * int (unat hi)
      in if u < 32768 then u else u - 65536) # samples16 rest"
| "samples16 _ = []"

definition sum_squares :: "int list \<Rightarrow> nat" where
  "sum_squares vs = nat (sum_list (map (\<lambda>v. v * v) vs))"

definition rms16 :: "8 word list \<Rightarrow> error + nat" where
  "rms16 fragment =
     (if length fragment mod 2 \<noteq> 0 then Inl AudioopError
      else if fragment = [] then Inr 0
      else Inr (isqrt (sum_squares (samples16 fragment) div (length fragment div 2))))"

text \<open>
  \<open>self.vu_stream.read(1024, exception_on_overflow=False)\<close> is PyAudio's blocking read:
  it returns the bytes of the frames once they have been captured, or raises, or, as
  long as the device delivers nothing, does not return.
\<close>

datatype read_result = ReadFrame "8 word list" | ReadRaises | ReadBlocks

text \<open>
  One timer tick. \<open>None\<close> is a call that has not returned; \<open>level = min(100,
  int(rms / 300))\<close>.
\<close>

definition update_vu_level :: "read_result \<Rightarrow> capture_window \<Rightarrow> capture_window option" where
  "update_vu_level rd w =
     (if vu_stream w = None then Some (w\<lparr>vu_meter := 0\<rparr>)
      else case rd of
        ReadBlocks \<Rightarrow> None
      | ReadRaises \<Rightarrow> Some (w\<lparr>vu_meter := 0\<rparr>)
      | ReadFrame data \<Rightarrow>
          (case rms16 data of
             Inl e \<Rightarrow> Some (w\<lparr>vu_meter := 0\<rparr>)
           | Inr rms \<Rightarrow> Some (w\<lparr>vu_meter := min 100 (py_int (real rms / 300))\<rparr>)))"

text \<open>
  Two windows for concrete runs: an idle one with device 0 selected, and the same window
  in a running session on device 0; and the environment in which every library call
  succeeds.
\<close>

definition idle_window :: capture_window where
  "idle_window =
     \<lparr>stt_stop = False, active_mics = [(0, ascii ''mic'')], mic_combo = Some 0,
      stt_status = [], stt_progress = False, btn_start = True, btn_stop = False,
      vu_audio = False, vu_stream = None, vu_timer = False, vu_meter = 0,
      open_streams = []\<rparr>"

definition listening_window :: capture_window where
  "listening_window =
     \<lparr>stt_stop = True, active_mics = [(0, ascii ''mic'')], mic_combo = Some 0,
      stt_status = status_listening, stt_progress = True, btn_start = False, btn_stop = True,
      vu_audio = True, vu_stream = Some 0, vu_timer = True, vu_meter = 0,
      open_streams = [(VuMeter, 0), (Listener, 0)]\<rparr>"

definition all_ok :: capture_env where
  "all_ok = \<lparr>mic_init_ok = True, pyaudio_ok = True, device_info_ok = True,
             vu_open_ok = True, vu_close_ok = True, listener_open_ok = True\<rparr>"

section \<open>Properties\<close>

subsection \<open>Speed change\<close>

text \<open>The equations by which the concrete runs below are computed.\<close>

lemmas float_eval = bitlen.simps round_double_def rne_div_def double_of_int_def
  py_int_float_def new_sr_def Let_def

lemmas seg_eval = seg_24k_def seg_11k_def small_lib_def speed_change_def set_frame_rate_def
  spawn_def ratecv_def ratecv_memory_ok_def c_int_range_def

lemma set_frame_rate_label:
  "set_frame_rate lib seg r = Inr seg' \<Longrightarrow> frame_rate seg' = r"
  by (auto simp: set_frame_rate_def spawn_def split: if_splits sum.splits)

lemma speed_change_label:
  assumes "speed_change lib seg f = Inr seg'"
  shows "frame_rate seg' = frame_rate seg"
proof -
  obtain n where "set_frame_rate lib (spawn seg (raw_data seg) n) (frame_rate seg) = Inr seg'"
    using assms by (auto simp: speed_change_def split: sum.splits)
  then show ?thesis
    by (rule set_frame_rate_label)
qed

text \<open>
  C1. Whenever \<open>speed_change\<close> returns a segment, its frame-rate label is the label of
  the input; so a second call that returns a segment, with the reciprocal factor or any
  other, returns one labelled with the original rate.
\<close>

theorem speed_change_keeps_rate_label:
  assumes "speed_change lib seg f = Inr s1"
  shows "frame_rate s1 = frame_rate seg
         \<and> (\<forall>g s2. speed_change lib s1 g = Inr s2 \<longrightarrow> frame_rate s2 = frame_rate seg)"
proof -
  have l1: "frame_rate s1 = frame_rate seg"
    using assms by (rule speed_change_label)
  have "frame_rate s2 = frame_rate seg" if "speed_change lib s1 g = Inr s2" for g s2
    using speed_change_label [OF that] l1 by simp
  with l1 show ?thesis by blast
qed

theorem speed_change_keeps_rate_label_witness:
  "speed_change small_lib seg_24k (Finite 2 0) = Inr (seg_24k\<lparr>raw_data := [0, 0, 0, 0]\<rparr>)
   \<and> speed_change small_lib (seg_24k\<lparr>raw_data := [0, 0, 0, 0]\<rparr>) (Finite 1 (- 1))
       = Inr (seg_24k\<lparr>raw_data := [0, 0, 0, 0, 0, 0, 0, 0]\<rparr>)
   \<and> frame_rate (seg_24k\<lparr>raw_data := [0, 0, 0, 0, 0, 0, 0, 0]\<rparr>) = frame_rate seg_24k
   \<and> frame_rate seg_24k = 24000"
proof -
  have a: "speed_change small_lib seg_24k (Finite 2 0)
             = Inr (seg_24k\<lparr>raw_data := [0, 0, 0, 0]\<rparr>)"
    by (simp add: float_eval seg_eval)
  have b: "speed_change small_lib (seg_24k\<lparr>raw_data := [0, 0, 0, 0]\<rparr>) (Finite 1 (- 1))
             = Inr (seg_24k\<lparr>raw_data := [0, 0, 0, 0, 0, 0, 0, 0]\<rparr>)"
    by (simp add: float_eval seg_eval numeral_2_eq_2 [symmetric])
  have c: "frame_rate seg_24k = 24000"
    by (simp add: seg_24k_def)
  from speed_change_keeps_rate_label [OF a] a b c show ?thesis by blast
qed

lemma trunc_bounds_nonneg:
  fixes x :: real and n :: int
  assumes "real_of_int n \<le> x" "x < real_of_int n + 1" "0 \<le> n"
  shows "\<bar>real_of_int n\<bar> \<le> \<bar>x\<bar> \<and> \<bar>x\<bar> < \<bar>real_of_int n\<bar> + 1
         \<and> (0 \<le> x \<longrightarrow> 0 \<le> n) \<and> (x \<le> 0 \<longrightarrow> n \<le> 0)"
proof -
  have n0: "0 \<le> real_of_int n" using assms(3) by simp
  have x0: "0 \<le> x" using n0 assms(1) by linarith
  have a: "\<bar>real_of_int n\<bar> = real_of_int n" using n0 by simp
  have b: "\<bar>x\<bar> = x" using x0 by simp
  have c: "n \<le> 0" if "x \<le> 0"
  proof -
    have "real_of_int n \<le> 0" using that assms(1) by linarith
    then show ?thesis by simp
  qed
  show ?thesis
    unfolding a b using assms c by blast
qed

lemma trunc_bounds_nonpos:
  fixes x :: real and j :: int
  assumes "real_of_int j \<le> - x" "- x < real_of_int j + 1" "0 \<le> j"
  shows "\<bar>real_of_int (- j)\<bar> \<le> \<bar>x\<bar> \<and> \<bar>x\<bar> < \<bar>real_of_int (- j)\<bar> + 1
         \<and> (0 \<le> x \<longrightarrow> 0 \<le> - j) \<and> (x \<le> 0 \<longrightarrow> - j \<le> 0)"
proof -
  have j0: "0 \<le> real_of_int j" using assms(3) by simp
  have x0: "x \<le> 0" using j0 assms(1) by linarith
  have a: "\<bar>real_of_int (- j)\<bar> = real_of_int j" using j0 by simp
  have b: "\<bar>x\<bar> = - x" using x0 by simp
  have c: "0 \<le> - j" if "0 \<le> x"
  proof -
    have "real_of_int j \<le> 0" using that assms(1) by linarith
    then have "j \<le> 0" by simp
    then show ?thesis by simp
  qed
  have d: "- j \<le> 0" using assms(3) by simp
  show ?thesis
    unfolding a b using assms c d by blast
qed


lemma py_int_float_truncates:
  assumes "py_int_float (Finite m e) = Inr n"
  shows "\<bar>real_of_int n\<bar> \<le> \<bar>finite_value m e\<bar> \<and> \<bar>finite_value m e\<bar> < \<bar>real_of_int n\<bar> + 1
         \<and> (0 \<le> finite_value m e \<longrightarrow> 0 \<le> n) \<and> (finite_value m e \<le> 0 \<longrightarrow> n \<le> 0)"
proof -
  define x where "x = finite_value m e"
  have "(real_of_int n \<le> x \<and> x < real_of_int n + 1 \<and> 0 \<le> n)
        \<or> (\<exists>j. n = - j \<and> real_of_int j \<le> - x \<and> - x < real_of_int j + 1 \<and> 0 \<le> j)"
  proof (cases "0 \<le> e")
    case True
    then have "n = m * 2 ^ nat e"
      using assms by (simp add: py_int_float_def)
    then have nx: "real_of_int n = x"
      using True by (simp add: finite_value_def x_def)
    show ?thesis
    proof (cases "0 \<le> n")
      case True
      then show ?thesis using nx by simp
    next
      case False
      have "n = - (- n)" "real_of_int (- n) \<le> - x" "- x < real_of_int (- n) + 1" "0 \<le> - n"
        using False nx by simp_all
      then show ?thesis by blast
    qed
  next
    case False
    define d :: int where "d = 2 ^ nat (- e)"
    have dpos: "0 < d" by (simp add: d_def)
    have v: "x = real_of_int m / real_of_int d"
      using False by (simp add: finite_value_def x_def d_def)
    show ?thesis
    proof (cases "0 \<le> m")
      case True
      have n: "n = m div d"
        using assms \<open>\<not> 0 \<le> e\<close> True by (simp add: py_int_float_def d_def)
      have "\<lfloor>real_of_int m / real_of_int d\<rfloor> = m div d"
        by (rule floor_divide_of_int_eq)
      then have fl: "real_of_int n = of_int \<lfloor>real_of_int m / real_of_int d\<rfloor>"
        by (simp only: n)
      have n0: "0 \<le> n"
        using True dpos by (simp add: n pos_imp_zdiv_nonneg_iff)
      have "real_of_int n \<le> x" "x < real_of_int n + 1"
        unfolding fl v by linarith+
      then show ?thesis using n0 by blast
    next
      case False
      then have mneg: "m < 0" by simp
      define mm where "mm = - m"
      define j where "j = mm div d"
      have n: "n = - j"
        using assms \<open>\<not> 0 \<le> e\<close> False by (simp add: py_int_float_def d_def j_def mm_def)
      have "\<lfloor>real_of_int mm / real_of_int d\<rfloor> = mm div d"
        by (rule floor_divide_of_int_eq)
      then have fl: "real_of_int j = of_int \<lfloor>real_of_int mm / real_of_int d\<rfloor>"
        by (simp only: j_def)
      have j0: "0 \<le> j"
        using mneg dpos by (simp add: j_def mm_def pos_imp_zdiv_nonneg_iff)
      have xm: "- x = real_of_int mm / real_of_int d"
        by (simp add: v mm_def)
      have "real_of_int j \<le> - x" "- x < real_of_int j + 1"
        unfolding fl xm by linarith+
      then show ?thesis using n j0 by blast
    qed
  qed
  then show ?thesis
    unfolding x_def [symmetric]
    using trunc_bounds_nonneg [of n x] trunc_bounds_nonpos [of _ x] by blast
qed

text \<open>
  C2, as the code has it. The intermediate rate is the double product \<open>rate \<times> factor\<close>
  truncated towards zero: when the product is the finite double \<open>m \<times> 2\<^sup>e\<close>, the rate
  \<open>n\<close> has the sign of the product and \<open>|n| \<le> |product| < |n| + 1\<close>.
\<close>

theorem new_sr_truncates:
  assumes "double_of_int (frame_rate seg) = Inr r" and "double_mul r f = Finite m e"
  shows "\<exists>n. new_sr seg f = Inr n
           \<and> \<bar>real_of_int n\<bar> \<le> \<bar>finite_value m e\<bar> \<and> \<bar>finite_value m e\<bar> < \<bar>real_of_int n\<bar> + 1
           \<and> (0 \<le> finite_value m e \<longrightarrow> 0 \<le> n) \<and> (finite_value m e \<le> 0 \<longrightarrow> n \<le> 0)"
proof -
  obtain n where n: "py_int_float (Finite m e) = Inr n"
    by (simp add: py_int_float_def)
  have "new_sr seg f = Inr n"
    using assms n by (simp add: new_sr_def)
  with py_int_float_truncates [OF n] show ?thesis
    by blast
qed

theorem new_sr_truncates_witness:
  "double_of_int (frame_rate seg_11k) = Inr (Finite 11025 0)
   \<and> double_mul (Finite 11025 0) (Finite 3 (- 2)) = Finite 33075 (- 2)
   \<and> finite_value 33075 (- 2) = 33075 / 4
   \<and> new_sr seg_11k (Finite 3 (- 2)) = Inr 8268"
proof -
  have a: "double_of_int (frame_rate seg_11k) = Inr (Finite 11025 0)"
    by (simp add: float_eval seg_eval)
  have b: "double_mul (Finite 11025 0) (Finite 3 (- 2)) = Finite 33075 (- 2)"
    by (simp add: float_eval seg_eval)
  have c: "finite_value 33075 (- 2) = 33075 / 4"
    by (simp add: finite_value_def)
  have d: "new_sr seg_11k (Finite 3 (- 2)) = Inr 8268"
    by (simp add: float_eval seg_eval)
  from new_sr_truncates [OF a b] a b c d show ?thesis
    by blast
qed

text \<open>
  C2 as stated fails: at 11025 Hz and factor 0.75 the product is 8268.75, the code
  computes 8268 and the nearest integer is 8269.
\<close>

theorem new_sr_round_counterexample:
  "new_sr seg_11k (Finite 3 (- 2)) = Inr 8268
   \<and> frame_rate seg_11k = 11025
   \<and> finite_value 3 (- 2) = 3 / 4
   \<and> spec_new_rate 11025 3 (- 2) = 8269
   \<and> \<bar>8269 - 11025 * (3 / 4 :: real)\<bar> < 1 / 2"
proof -
  have "new_sr seg_11k (Finite 3 (- 2)) = Inr 8268"
    by (simp add: float_eval seg_eval)
  moreover have "frame_rate seg_11k = 11025"
    by (simp add: seg_11k_def)
  moreover have "finite_value 3 (- 2) = 3 / 4"
    by (simp add: finite_value_def)
  moreover have "spec_new_rate 11025 3 (- 2) = 8269"
    by (simp add: spec_new_rate_def finite_value_def round_def)
  ultimately show ?thesis
    by simp
qed

lemma ratecv_ok:
  assumes "wf_segment seg" "1 \<le> inrate" "inrate \<le> 2147483647"
    "ratecv_memory_ok lib (raw_data seg) (sample_width seg) (channels seg) inrate (frame_rate seg)"
  shows "ratecv lib (raw_data seg) (sample_width seg) (channels seg) inrate (frame_rate seg)
           = Inr (resample lib (raw_data seg) (sample_width seg) (channels seg) inrate
                    (frame_rate seg))"
proof -
  have w: "sample_width seg = 1 \<or> sample_width seg = 2 \<or> sample_width seg = 4"
    using assms(1) by (simp add: wf_segment_def)
  have c: "1 \<le> channels seg" "channels seg \<le> 536870911"
    using assms(1) by (simp_all add: wf_segment_def)
  have f: "length (raw_data seg) mod (sample_width seg * channels seg) = 0"
    using assms(1) by (simp add: wf_segment_def)
  have r: "1 \<le> frame_rate seg" "frame_rate seg \<le> 2147483647"
    using assms(1) by (simp_all add: wf_segment_def)
  have "sample_width seg * channels seg \<le> 2147483647"
    using w c by auto
  then have d: "sample_width seg \<le> 2147483647 div channels seg"
    using c(1) by (simp add: less_eq_div_iff_mult_less_eq)
  show ?thesis
    using assms(2-4) w c f r d by (auto simp: ratecv_def c_int_range_def)
qed

lemma speed_change_ok:
  assumes "wf_segment seg" "new_sr seg f = Inr n" "1 \<le> n" "n \<le> 2147483647"
    "ratecv_memory_ok lib (raw_data seg) (sample_width seg) (channels seg) n (frame_rate seg)"
  shows "\<exists>s. speed_change lib seg f = Inr s \<and> frame_rate s = frame_rate seg"
proof -
  let ?mid = "spawn seg (raw_data seg) n"
  have rc: "ratecv lib (raw_data ?mid) (sample_width ?mid) (channels ?mid) n (frame_rate seg)
            = Inr (resample lib (raw_data seg) (sample_width seg) (channels seg) n (frame_rate seg))"
    using ratecv_ok [OF assms(1,3,4,5)] by (simp add: spawn_def)
  have fr: "frame_rate ?mid = n"
    by (simp add: spawn_def)
  have sc: "speed_change lib seg f = set_frame_rate lib ?mid (frame_rate seg)"
    using assms(2) by (simp add: speed_change_def)
  show ?thesis
    unfolding sc set_frame_rate_def fr
    using rc by (simp add: spawn_def)
qed

lemma speed_change_zero_rate:
  assumes "wf_segment seg" "new_sr seg f = Inr 0" "raw_data seg \<noteq> []"
  shows "speed_change lib seg f = Inl AudioopError"
proof -
  have w: "sample_width seg = 1 \<or> sample_width seg = 2 \<or> sample_width seg = 4"
    using assms(1) by (simp add: wf_segment_def)
  have c: "1 \<le> channels seg" "channels seg \<le> 536870911"
    using assms(1) by (simp_all add: wf_segment_def)
  have fm: "length (raw_data seg) mod (sample_width seg * channels seg) = 0"
    using assms(1) by (simp add: wf_segment_def)
  have r: "1 \<le> frame_rate seg" "frame_rate seg \<le> 2147483647"
    using assms(1) by (simp_all add: wf_segment_def)
  have "sample_width seg * channels seg \<le> 2147483647"
    using w c by auto
  then have d: "sample_width seg \<le> 2147483647 div channels seg"
    using c(1) by (simp add: less_eq_div_iff_mult_less_eq)
  have "ratecv lib (raw_data seg) (sample_width seg) (channels seg) 0 (frame_rate seg)
          = Inl AudioopError"
    using r w fm c d by (auto simp: ratecv_def c_int_range_def)
  then show ?thesis
    using r assms(2,3) by (simp add: speed_change_def set_frame_rate_def spawn_def)
qed

text \<open>
  C3, as the code has it. \<open>speed_change\<close> has no clamp. On a well-formed segment with
  intermediate rate \<open>n = int(rate \<times> factor)\<close>: when \<open>n\<close> lies between 1 and \<open>2\<^sup>3\<^sup>1 - 1\<close>
  and the resampler gets its buffers, a segment labelled with the input's rate is
  returned, whatever the factor; when \<open>n\<close> is 0 and the audio is not empty, the
  resampling raises \<open>audioop.error\<close>.
\<close>

theorem speed_change_success_condition:
  assumes "wf_segment seg" and "new_sr seg f = Inr n"
  shows "(1 \<le> n \<and> n \<le> 2147483647
           \<and> ratecv_memory_ok lib (raw_data seg) (sample_width seg) (channels seg) n (frame_rate seg)
          \<longrightarrow> (\<exists>s. speed_change lib seg f = Inr s \<and> frame_rate s = frame_rate seg))
         \<and> (n = 0 \<and> raw_data seg \<noteq> [] \<longrightarrow> speed_change lib seg f = Inl AudioopError)"
  using speed_change_ok [OF assms, of lib] speed_change_zero_rate [OF assms(1), of f lib] assms(2)
  by blast

theorem speed_change_success_condition_witness:
  "wf_segment seg_24k
   \<and> new_sr seg_24k (Finite 3 0) = Inr 72000
   \<and> ratecv_memory_ok small_lib (raw_data seg_24k) (sample_width seg_24k) (channels seg_24k)
        72000 (frame_rate seg_24k)
   \<and> (\<exists>s. speed_change small_lib seg_24k (Finite 3 0) = Inr s \<and> frame_rate s = 24000)
   \<and> new_sr seg_24k (Finite 1 (- 20)) = Inr 0
   \<and> raw_data seg_24k \<noteq> []
   \<and> speed_change small_lib seg_24k (Finite 1 (- 20)) = Inl AudioopError"
proof -
  have wf: "wf_segment seg_24k"
    by (simp add: wf_segment_def seg_24k_def)
  have n3: "new_sr seg_24k (Finite 3 0) = Inr 72000"
    by (simp add: float_eval seg_eval)
  have m3: "ratecv_memory_ok small_lib (raw_data seg_24k) (sample_width seg_24k)
      (channels seg_24k) 72000 (frame_rate seg_24k)"
    by (simp add: float_eval seg_eval)
  have n0: "new_sr seg_24k (Finite 1 (- 20)) = Inr 0"
    by (simp add: float_eval seg_eval)
  have ne: "raw_data seg_24k \<noteq> []" "frame_rate seg_24k = 24000"
    by (simp_all add: seg_24k_def)
  have r3: "(1::int) \<le> 72000 \<and> (72000::int) \<le> 2147483647"
    by simp
  have e3: "\<exists>s. speed_change small_lib seg_24k (Finite 3 0) = Inr s
              \<and> frame_rate s = frame_rate seg_24k"
    using speed_change_success_condition [OF wf n3, of small_lib] r3 m3 by blast
  have e0: "speed_change small_lib seg_24k (Finite 1 (- 20)) = Inl AudioopError"
    using speed_change_success_condition [OF wf n0, of small_lib] ne(1) by blast
  show ?thesis
    using wf n3 m3 e3 n0 ne e0 by (simp only: ne(2)) blast
qed

text \<open>
  C3 as stated fails. At 24000 Hz the positive factor \<open>2\<^sup>-\<^sup>2\<^sup>0\<close> gives the intermediate
  rate 0 and the step raises; and nothing is clamped: factor 3 gives the rate 72000,
  not the 60000 of factor 2.5.
\<close>

theorem speed_change_positive_factor_counterexample:
  "finite_value 1 (- 20) = 1 / 1048576
   \<and> speed_change small_lib seg_24k (Finite 1 (- 20)) = Inl AudioopError
   \<and> new_sr seg_24k (Finite 3 0) = Inr 72000
   \<and> new_sr seg_24k (Finite 5 (- 1)) = Inr 60000"
proof -
  have "finite_value 1 (- 20) = 1 / 1048576"
    by (simp add: finite_value_def)
  moreover have "speed_change small_lib seg_24k (Finite 1 (- 20)) = Inl AudioopError"
    by (simp add: float_eval seg_eval)
  moreover have "new_sr seg_24k (Finite 3 0) = Inr 72000"
    by (simp add: float_eval seg_eval)
  moreover have "new_sr seg_24k (Finite 5 (- 1)) = Inr 60000"
    by (simp add: float_eval seg_eval)
  ultimately show ?thesis
    by simp
qed

subsection \<open>Volume gain\<close>

text \<open>
  C4. For every real \<open>v\<close> the gain is \<open>20 \<times> log\<^sub>1\<^sub>0\<close> of \<open>v\<close> clamped to [0.1, 2.0].
\<close>

theorem volume_gain_db_clamped_log:
  "volume_gain_db v = 20 * log 10 (clamp v (1 / 10) 2)"
  by (simp add: volume_gain_db_def clamp_def max_def min_def)

subsection \<open>History\<close>

lemma take_append_take:
  "take n (xs @ take n ys) = take n (xs @ ys)"
  by (simp add: min_def)

lemma length_history_add_history:
  "length (history (add_history s e w)) \<le> history_maxlen"
  by (simp add: add_history_def appendleft_def Let_def)

lemma history_add_history_all:
  "length (history w) \<le> history_maxlen \<Longrightarrow>
   history (add_history_all es w) =
     take history_maxlen (rev (map (\<lambda>(s, e). history_line s e) es) @ history w)"
proof (induction es arbitrary: w)
  case Nil
  then show ?case by simp
next
  case (Cons p es)
  obtain s e where p: "p = (s, e)" by (cases p)
  have step: "history (add_history s e w) = take history_maxlen (history_line s e # history w)"
    by (simp add: add_history_def appendleft_def Let_def)
  have "history (add_history_all (p # es) w) =
          history (add_history_all es (add_history s e w))"
    by (simp add: p)
  also have "\<dots> = take history_maxlen (rev (map (\<lambda>(s, e). history_line s e) es)
                 @ history (add_history s e w))"
    by (rule Cons.IH) (rule length_history_add_history)
  also have "\<dots> = take history_maxlen (rev (map (\<lambda>(s, e). history_line s e) es)
                 @ history_line s e # history w)"
    unfolding step by (rule take_append_take)
  finally show ?case by (simp add: p)
qed

text \<open>
  C10. Starting from the empty deque of \<open>__init__\<close>, after any sequence of additions the
  history holds at most 10 lines and is the newest-first list of the lines added, cut
  at 10; one addition puts its line at the front, and on a full history drops the last
  (oldest) line.
\<close>

theorem history_bounded_newest_first:
  "length (history (add_history_all es init_history)) \<le> 10
   \<and> history (add_history_all es init_history)
       = take 10 (rev (map (\<lambda>(s, e). history_line s e) es))
   \<and> hd (history (add_history stamp entry w)) = history_line stamp entry
   \<and> (length (history w) = 10 \<longrightarrow>
        history (add_history stamp entry w) = history_line stamp entry # butlast (history w))
   \<and> (length (history w) < 10 \<longrightarrow>
        history (add_history stamp entry w) = history_line stamp entry # history w)"
proof -
  have init: "length (history init_history) \<le> history_maxlen"
    by (simp add: init_history_def)
  have all: "history (add_history_all es init_history)
       = take 10 (rev (map (\<lambda>(s, e). history_line s e) es))"
    using history_add_history_all [OF init, of es]
    by (simp add: init_history_def history_maxlen_def)
  have step: "history (add_history stamp entry w) = take 10 (history_line stamp entry # history w)"
    by (simp add: add_history_def appendleft_def Let_def history_maxlen_def)
  have full: "length (history w) = 10 \<Longrightarrow> take 9 (history w) = butlast (history w)"
    by (simp add: butlast_conv_take)
  show ?thesis
    using all step full by (simp add: numeral_eq_Suc)
qed

theorem history_bounded_newest_first_witness:
  "length (history \<lparr>history = replicate 10 [], history_list = []\<rparr>) = 10
   \<and> history (add_history [7] [8] \<lparr>history = replicate 10 [], history_list = []\<rparr>)
       = history_line [7] [8] # replicate 9 []
   \<and> length (history init_history) < 10
   \<and> history (add_history [7] [8] init_history) = [history_line [7] [8]]"
  using history_bounded_newest_first [of "[]" "[7]" "[8]"
          "\<lparr>history = replicate 10 [], history_list = []\<rparr>"]
        history_bounded_newest_first [of "[]" "[7]" "[8]" init_history]
  by (simp add: init_history_def numeral_eq_Suc)

subsection \<open>Recognition callback\<close>

lemma callback_outcome:
  "callback lang stamp res w =
     Inr (w\<lparr>stt_text := (case res of Inr text \<Rightarrow> stt_text w @ [text] | Inl e \<Rightarrow> stt_text w),
            hist := add_history stamp (outcome_entry lang (spec_outcome res)) (hist w)\<rparr>)"
proof (cases res)
  case (Inl e)
  then show ?thesis
    by (cases e) (simp_all add: callback_def)
next
  case (Inr t)
  then show ?thesis
    by (simp add: callback_def)
qed

lemma listen_all_history:
  "length (history (hist w)) \<le> history_maxlen \<Longrightarrow>
   \<exists>w'. listen_all lang rs w = Inr w'
     \<and> history (hist w') =
         take history_maxlen
           (rev (map (\<lambda>(s, r). history_line s (outcome_entry lang (spec_outcome r))) rs)
            @ history (hist w))"
proof (induction rs arbitrary: w)
  case Nil
  then show ?case by simp
next
  case (Cons p rs)
  obtain s r where p: "p = (s, r)" by (cases p)
  let ?f = "\<lambda>(s, r). history_line s (outcome_entry lang (spec_outcome r))"
  obtain w1 where w1: "callback lang s r w = Inr w1"
    and h1: "history (hist w1) = take history_maxlen (?f p # history (hist w))"
    using callback_outcome [of lang s r w]
    by (simp add: p add_history_def appendleft_def Let_def)
  have "length (history (hist w1)) \<le> history_maxlen"
    by (simp add: h1)
  from Cons.IH [OF this] obtain w' where
    w': "listen_all lang rs w1 = Inr w'"
    and h': "history (hist w') = take history_maxlen (rev (map ?f rs) @ history (hist w1))"
    by blast
  have "history (hist w') = take history_maxlen (rev (map ?f rs) @ ?f p # history (hist w))"
    unfolding h' h1 by (rule take_append_take)
  then show ?case
    using w1 w' by (simp add: p)
qed

lemma listen_all_returns: "\<exists>w'. listen_all lang rs w = Inr w'"
proof (induction rs arbitrary: w)
  case Nil
  show ?case by simp
next
  case (Cons p rs)
  obtain s r where p: "p = (s, r)" by (cases p)
  obtain w1 where w1: "callback lang s r w = Inr w1"
    using callback_outcome [of lang s r w] by blast
  from Cons.IH [of w1] show ?case
    by (simp add: p w1)
qed

lemma outcome_entry_inj:
  "outcome_entry lang a = outcome_entry lang b \<Longrightarrow> a = b"
  by (cases a; cases b)
     (simp_all add: entry_text_def entry_unknown_def entry_request_def entry_failed_def
        pomylka_def ascii_def)

text \<open>
  C7. The callback returns for every result of the recogniser and adds one history line,
  the line of the outcome the spec assigns: no speech gives Inaudible, a request error
  ServiceUnavailable, any other exception Failed with its message. Distinct outcomes have
  distinct lines. So the listener gets through every sequence of utterances, whatever
  failed, and has added one line per utterance.
\<close>

theorem callback_one_outcome_never_raises:
  "callback lang stamp res w =
     Inr (w\<lparr>stt_text := (case res of Inr text \<Rightarrow> stt_text w @ [text] | Inl e \<Rightarrow> stt_text w),
            hist := add_history stamp (outcome_entry lang (spec_outcome res)) (hist w)\<rparr>)
   \<and> spec_outcome (Inl UnknownValueError) = Inaudible
   \<and> spec_outcome (Inl (RequestError m)) = ServiceUnavailable
   \<and> spec_outcome (Inl (OtherException m)) = Failed m
   \<and> (outcome_entry lang a = outcome_entry lang b \<longrightarrow> a = b)
   \<and> (\<exists>w'. listen_all lang rs w = Inr w')
   \<and> (length (history (hist w)) \<le> 10 \<longrightarrow>
        (\<exists>w'. listen_all lang rs w = Inr w'
           \<and> history (hist w') =
               take 10 (rev (map (\<lambda>(s, r). history_line s (outcome_entry lang (spec_outcome r))) rs)
                        @ history (hist w))))"
  using callback_outcome [of lang stamp res w] outcome_entry_inj [of lang a b]
    listen_all_history [of w lang rs] listen_all_returns [of lang rs w]
  by (simp add: history_maxlen_def)

theorem callback_one_outcome_never_raises_witness:
  "length (history (hist \<lparr>hist = init_history, stt_text = []\<rparr>)) \<le> 10
   \<and> (\<exists>w'. listen_all (ascii ''uk-UA'')
              [([1], Inl UnknownValueError), ([2], Inl (RequestError [])),
               ([3], Inl (OtherException [4])), ([5], Inr [6])]
              \<lparr>hist = init_history, stt_text = []\<rparr> = Inr w'
          \<and> history (hist w') =
              [history_line [5] (entry_text (ascii ''uk-UA'') [6]),
               history_line [3] (entry_failed [4]),
               history_line [2] entry_request,
               history_line [1] entry_unknown])
   \<and> outcome_entry (ascii ''uk-UA'') Inaudible \<noteq> outcome_entry (ascii ''uk-UA'') ServiceUnavailable"
  using callback_one_outcome_never_raises [of "ascii ''uk-UA''" "[]" "Inr []"
      "\<lparr>hist = init_history, stt_text = []\<rparr>" "[]" Inaudible ServiceUnavailable
      "[([1], Inl UnknownValueError), ([2], Inl (RequestError [])),
        ([3], Inl (OtherException [4])), ([5], Inr [6])]"]
  by (simp add: init_history_def)

subsection \<open>Text-to-speech entry point\<close>

lemma strip_all_space:
  assumes "\<forall>c\<in>set s. py_isspace c"
  shows "strip s = []"
proof -
  have d: "dropWhile py_isspace s = []"
    using assms by simp
  show ?thesis
    unfolding strip_def d by simp
qed

text \<open>
  C6. When the text box holds nothing but whitespace (or nothing at all), \<open>play_tts\<close>
  shows its warning and returns: the window is unchanged, no save dialog is opened and no
  worker is started, so the synthesis service is not reached.
\<close>

theorem play_tts_rejects_blank_text:
  assumes "\<forall>c\<in>set (tts_text w). py_isspace c"
  shows "play_tts target parent save_only w = (w, [WarningBox])
         \<and> (\<forall>req. WorkerStart req \<notin> set (snd (play_tts target parent save_only w)))
         \<and> tts_worker (fst (play_tts target parent save_only w)) = tts_worker w"
  using strip_all_space [OF assms] by (simp add: play_tts_def)

theorem play_tts_rejects_blank_text_witness:
  "py_isspace 32 \<and> py_isspace 9 \<and> py_isspace 10
   \<and> play_tts (ascii ''out.mp3'') [] True
        \<lparr>tts_text = [32, 9, 10], tts_lang = ascii ''uk'', speed_combo = 1,
        volume_slider = 100, last_save_dir = [], should_play = True, tts_status = [],
        tts_progress = False, btn_play = True, btn_save_mp3 = True, tts_worker = None\<rparr>
     = (\<lparr>tts_text = [32, 9, 10], tts_lang = ascii ''uk'', speed_combo = 1,
        volume_slider = 100, last_save_dir = [], should_play = True, tts_status = [],
        tts_progress = False, btn_play = True, btn_save_mp3 = True, tts_worker = None\<rparr>,
        [WarningBox])"
proof -
  let ?w = "\<lparr>tts_text = [32, 9, 10], tts_lang = ascii ''uk'', speed_combo = 1,
        volume_slider = 100, last_save_dir = [], should_play = True, tts_status = [],
        tts_progress = False, btn_play = True, btn_save_mp3 = True, tts_worker = None\<rparr>"
  have sp: "\<forall>c\<in>set (tts_text ?w). py_isspace c"
    by (simp add: py_isspace_def)
  have "py_isspace 32 \<and> py_isspace 9 \<and> py_isspace 10"
    by (simp add: py_isspace_def)
  with play_tts_rejects_blank_text [OF sp, of "ascii ''out.mp3''" "[]" True]
  show ?thesis by blast
qed


subsection \<open>Level meter\<close>

lemma isqrt_bounds: "isqrt n * isqrt n \<le> n \<and> n < (isqrt n + 1) * (isqrt n + 1)"
proof (induction n rule: isqrt.induct)
  case (1 n)
  show ?case
  proof (cases "n < 4")
    case True
    have eq: "isqrt n = (if n = 0 then 0 else 1)"
      using True by (subst isqrt.simps) simp
    show ?thesis
      unfolding eq using True by auto
  next
    case False
    define s where "s = isqrt (n div 4)"
    have ih: "s * s \<le> n div 4" "n div 4 < (s + 1) * (s + 1)"
      using 1 False by (simp_all add: s_def)
    have lo: "(2 * s) * (2 * s) \<le> n"
    proof -
      have "4 * (s * s) \<le> 4 * (n div 4)" using ih(1) by simp
      also have "\<dots> \<le> n" by simp
      finally show ?thesis by (simp add: algebra_simps)
    qed
    have hi: "n < (2 * s + 2) * (2 * s + 2)"
    proof -
      have "n < 4 * (n div 4 + 1)" by simp
      also have "\<dots> \<le> 4 * ((s + 1) * (s + 1))" using ih(2) by simp
      finally show ?thesis by (simp add: algebra_simps)
    qed
    have eq: "isqrt n = (if (2 * s + 1) * (2 * s + 1) \<le> n then 2 * s + 1 else 2 * s)"
      using False by (subst isqrt.simps) (simp add: s_def Let_def)
    show ?thesis
    proof (cases "(2 * s + 1) * (2 * s + 1) \<le> n")
      case True
      then have "isqrt n = 2 * s + 1" using eq by simp
      then show ?thesis using True hi by (simp add: algebra_simps)
    next
      case False
      then have "isqrt n = 2 * s" using eq by simp
      then show ?thesis using False lo by (simp add: algebra_simps)
    qed
  qed
qed

lemma le_isqrt_iff: "k \<le> isqrt n \<longleftrightarrow> k * k \<le> n"
proof
  assume "k \<le> isqrt n"
  then have "k * k \<le> isqrt n * isqrt n" by (simp add: mult_le_mono)
  then show "k * k \<le> n" using isqrt_bounds [of n] by simp
next
  assume a: "k * k \<le> n"
  show "k \<le> isqrt n"
  proof (rule ccontr)
    assume "\<not> k \<le> isqrt n"
    then have h: "isqrt n + 1 \<le> k" by simp
    have "(isqrt n + 1) * (isqrt n + 1) \<le> k * k" by (rule mult_le_mono [OF h h])
    then show False using isqrt_bounds [of n] a by simp
  qed
qed

text \<open>The integer square root is what the C code computes over the doubles.\<close>

lemma isqrt_floor_sqrt:
  assumes "0 < n"
  shows "int (isqrt (S div n)) = \<lfloor>sqrt (real S / real n)\<rfloor>"
proof -
  define k where "k = isqrt (S div n)"
  have npos: "0 < real n" using assms by simp
  have b: "k * k \<le> S div n" "S div n < (k + 1) * (k + 1)"
    using isqrt_bounds [of "S div n"] by (simp_all add: k_def)
  have lo: "real (k * k) \<le> real S / real n"
  proof -
    have "k * k * n \<le> S" using b(1) assms by (simp add: less_eq_div_iff_mult_less_eq)
    then have "real (k * k * n) \<le> real S" by (simp only: of_nat_le_iff)
    then have "real (k * k) * real n \<le> real S" by (simp only: of_nat_mult)
    then show ?thesis by (simp only: pos_le_divide_eq [OF npos])
  qed
  have hi: "real S / real n < real ((k + 1) * (k + 1))"
  proof -
    have "S < (k + 1) * (k + 1) * n" using b(2) assms by (simp add: div_less_iff_less_mult)
    then have "real S < real ((k + 1) * (k + 1) * n)" by (simp only: of_nat_less_iff)
    then have "real S < real ((k + 1) * (k + 1)) * real n" by (simp only: of_nat_mult)
    then show ?thesis by (simp only: pos_divide_less_eq [OF npos])
  qed
  have "real k \<le> sqrt (real S / real n)"
    using lo by (simp add: real_le_rsqrt power2_eq_square)
  moreover have "sqrt (real S / real n) < real k + 1"
  proof -
    have "sqrt (real S / real n) < sqrt (real ((k + 1) * (k + 1)))"
      using hi by (simp only: real_sqrt_less_iff)
    also have "\<dots> = real k + 1"
    proof -
      have e: "real ((k + 1) * (k + 1)) = (real k + 1)\<^sup>2"
        by (simp add: power2_eq_square algebra_simps)
      show ?thesis unfolding e by simp
    qed
    finally show ?thesis .
  qed
  ultimately have "\<lfloor>sqrt (real S / real n)\<rfloor> = int k"
    by (simp add: floor_eq_iff)
  then show ?thesis by (simp add: k_def)
qed

lemma isqrt_0: "isqrt 0 = 0"
  by (subst isqrt.simps) simp

lemma samples16_zero: "samples16 (replicate (2 * n) 0) = replicate n 0"
  by (induction n) simp_all

lemma rms16_zero: "rms16 (replicate (2 * n) 0) = Inr 0"
  by (simp add: rms16_def samples16_zero sum_squares_def sum_list_replicate isqrt_0)

lemma length_samples16: "even (length xs) \<Longrightarrow> length (samples16 xs) = length xs div 2"
  by (induction xs rule: samples16.induct) simp_all

lemma sum_squares_lower:
  assumes "\<forall>v\<in>set vs. int c \<le> \<bar>v\<bar>"
  shows "length vs * (c * c) \<le> sum_squares vs"
proof -
  have "int (length vs) * (int c * int c) \<le> sum_list (map (\<lambda>v. v * v) vs)"
    using assms
  proof (induction vs)
    case Nil
    show ?case by simp
  next
    case (Cons v vs)
    have "int c * int c \<le> \<bar>v\<bar> * \<bar>v\<bar>"
      using Cons.prems by (intro mult_mono) simp_all
    then have "int c * int c \<le> v * v"
      by simp
    moreover have "int (length vs) * (int c * int c) \<le> sum_list (map (\<lambda>v. v * v) vs)"
      using Cons by simp
    ultimately show ?case
      by (simp add: algebra_simps)
  qed
  then have "int (length vs * (c * c)) \<le> sum_list (map (\<lambda>v. v * v) vs)"
    by simp
  then have "nat (int (length vs * (c * c))) \<le> nat (sum_list (map (\<lambda>v. v * v) vs))"
    by (rule nat_mono)
  then show ?thesis
    unfolding sum_squares_def by (simp only: nat_int)
qed

lemma rms16_full_scale:
  assumes "even (length data)" "data \<noteq> []" "\<forall>v\<in>set (samples16 data). int c \<le> \<bar>v\<bar>"
  shows "\<exists>r. rms16 data = Inr r \<and> c \<le> r"
proof -
  define n where "n = length data div 2"
  have npos: "0 < n"
    using assms(1,2) by (cases data) (auto simp: n_def elim: evenE)
  have len: "length (samples16 data) = n"
    using assms(1) by (simp add: length_samples16 n_def)
  have "n * (c * c) \<le> sum_squares (samples16 data)"
    using sum_squares_lower [OF assms(3)] len by simp
  then have "c * c \<le> sum_squares (samples16 data) div n"
    using npos by (simp add: less_eq_div_iff_mult_less_eq mult.commute)
  then have "c \<le> isqrt (sum_squares (samples16 data) div n)"
    by (simp add: le_isqrt_iff)
  then show ?thesis
    using assms(1,2) by (simp add: rms16_def n_def)
qed

lemma level_range: "0 \<le> min 100 (py_int (real r / 300)) \<and> min 100 (py_int (real r / 300)) \<le> 100"
  by (simp add: py_int_def)

lemma level_saturates: "30000 \<le> r \<Longrightarrow> min 100 (py_int (real r / 300)) = 100"
  by (simp add: py_int_def le_floor_iff)

lemma update_vu_level_range:
  "update_vu_level rd w = Some w' \<Longrightarrow> 0 \<le> vu_meter w' \<and> vu_meter w' \<le> 100"
  using level_range
  by (auto simp: update_vu_level_def split: if_splits read_result.splits sum.splits)

text \<open>
  C8, as the code has it. Every level the meter sets lies in [0, 100]; a frame of zeros
  gives 0; a frame in which every sample has full-scale magnitude (32767 or more, as
  in a full-scale square wave) gives 100; with no stream, or when the read raises, the
  meter is set to 0. While the blocking read on an open stream has not returned, the
  call has not returned either and no level is set.
\<close>

theorem update_vu_level_levels:
  "(update_vu_level rd w = Some w' \<longrightarrow> 0 \<le> vu_meter w' \<and> vu_meter w' \<le> 100)
   \<and> (vu_stream w \<noteq> None \<longrightarrow>
        update_vu_level (ReadFrame (replicate (2 * n) 0)) w = Some (w\<lparr>vu_meter := 0\<rparr>))
   \<and> (vu_stream w \<noteq> None \<and> even (length data) \<and> data \<noteq> []
        \<and> (\<forall>v\<in>set (samples16 data). 32767 \<le> \<bar>v\<bar>) \<longrightarrow>
        update_vu_level (ReadFrame data) w = Some (w\<lparr>vu_meter := 100\<rparr>))
   \<and> (vu_stream w = None \<longrightarrow> update_vu_level rd w = Some (w\<lparr>vu_meter := 0\<rparr>))
   \<and> update_vu_level ReadRaises w = Some (w\<lparr>vu_meter := 0\<rparr>)
   \<and> (vu_stream w \<noteq> None \<longrightarrow> update_vu_level ReadBlocks w = None)"
proof -
  have zero: "update_vu_level (ReadFrame (replicate (2 * n) 0)) w = Some (w\<lparr>vu_meter := 0\<rparr>)"
    if st: "vu_stream w \<noteq> None"
  proof -
    obtain d where "vu_stream w = Some d"
      using st by auto
    then show ?thesis
      by (simp add: update_vu_level_def rms16_zero py_int_def)
  qed
  have full: "update_vu_level (ReadFrame data) w = Some (w\<lparr>vu_meter := 100\<rparr>)"
    if st: "vu_stream w \<noteq> None" and ev: "even (length data)" and ne: "data \<noteq> []"
      and fs: "\<forall>v\<in>set (samples16 data). 32767 \<le> \<bar>v\<bar>"
  proof -
    have "\<forall>v\<in>set (samples16 data). int 32767 \<le> \<bar>v\<bar>"
      using fs by simp
    from rms16_full_scale [OF ev ne this]
    obtain r where r: "rms16 data = Inr r" "32767 \<le> r" by blast
    then have m: "min 100 (py_int (real r / 300)) = 100"
      by (intro level_saturates) simp
    obtain d where d: "vu_stream w = Some d"
      using st by auto
    show ?thesis
      using r(1) m d by (simp add: update_vu_level_def)
  qed
  have none: "update_vu_level rd w = Some (w\<lparr>vu_meter := 0\<rparr>)" if "vu_stream w = None"
    using that by (simp add: update_vu_level_def)
  have raises: "update_vu_level ReadRaises w = Some (w\<lparr>vu_meter := 0\<rparr>)"
    by (simp add: update_vu_level_def)
  have blocks: "update_vu_level ReadBlocks w = None" if st: "vu_stream w \<noteq> None"
  proof -
    obtain d where "vu_stream w = Some d"
      using st by auto
    then show ?thesis
      by (simp add: update_vu_level_def)
  qed
  show ?thesis
    using update_vu_level_range [of rd w w'] zero full none raises blocks by blast
qed



theorem update_vu_level_levels_witness:
  "update_vu_level (ReadFrame [255, 127, 0, 128]) listening_window
     = Some (listening_window\<lparr>vu_meter := 100\<rparr>)
   \<and> vu_meter (listening_window\<lparr>vu_meter := 100\<rparr>) \<le> 100
   \<and> vu_stream listening_window \<noteq> None
   \<and> even (length [255, 127, 0, 128 :: 8 word])
   \<and> samples16 [255, 127, 0, 128] = [32767, - 32768]
   \<and> update_vu_level (ReadFrame (replicate (2 * 2) 0)) listening_window
       = Some (listening_window\<lparr>vu_meter := 0\<rparr>)
   \<and> vu_stream idle_window = None
   \<and> update_vu_level ReadBlocks idle_window = Some (idle_window\<lparr>vu_meter := 0\<rparr>)
   \<and> update_vu_level ReadBlocks listening_window = None"
proof -
  have st: "vu_stream listening_window \<noteq> None"
    by (simp add: listening_window_def)
  have fs: "\<forall>v\<in>set (samples16 [255, 127, 0, 128]). 32767 \<le> \<bar>v\<bar>"
    by simp
  have idle: "vu_stream idle_window = None"
    by (simp add: idle_window_def)
  show ?thesis
    using update_vu_level_levels [of "ReadFrame [255, 127, 0, 128]" listening_window
        "listening_window\<lparr>vu_meter := 100\<rparr>" 2 "[255, 127, 0, 128]"]
      update_vu_level_levels [of ReadBlocks idle_window "idle_window\<lparr>vu_meter := 0\<rparr>" 2 "[]"]
      st fs idle
    by simp
qed

text \<open>
  C8 as stated fails for the stalled stream: with the meter's stream open and its
  blocking read waiting for frames, the tick does not return and sets no level.
\<close>

theorem update_vu_level_stalled_counterexample:
  "vu_stream listening_window = Some 0
   \<and> update_vu_level ReadBlocks listening_window = None"
  by (simp add: listening_window_def update_vu_level_def)

subsection \<open>Capture streams\<close>

lemma start_vu_meter_streams:
  "open_streams (start_vu_meter env (Some d) w)
     = open_streams (stop_vu_meter env w) @ (if meter_opens env then [(VuMeter, d)] else [])
   \<and> vu_stream (start_vu_meter env (Some d) w) = (if meter_opens env then Some d else None)
   \<and> (\<not> meter_opens env \<longrightarrow> vu_meter (start_vu_meter env (Some d) w) = 0)"
  by (simp add: start_vu_meter_def stop_vu_meter_def meter_opens_def Let_def)

lemma open_streams_stop_vu_meter_ui:
  "open_streams (stop_vu_meter env (w\<lparr>stt_status := a, stt_progress := b,
       btn_start := c, btn_stop := d\<rparr>)) = open_streams (stop_vu_meter env w)"
  by (simp add: stop_vu_meter_def split: option.splits)

text \<open>
  C9, as the code has it. Starting a session on the selected device \<open>i\<close> (no session
  running, a microphone selected, microphones present, the microphone object built)
  leaves open what \<open>stop_vu_meter\<close> left open, and adds the meter's own stream on \<open>i\<close>
  and then the listener's own stream on \<open>i\<close>, each when its open succeeds. When both
  succeed the open input streams on device \<open>i\<close> are two more than before, not one
  shared stream; when the meter's open fails the meter stays at 0.
\<close>

theorem start_recording_opens_a_stream_per_consumer:
  assumes "\<not> stt_stop w" "mic_combo w = Some i" "active_mics w \<noteq> []" "mic_init_ok env"
  shows "open_streams (fst (start_recording env w))
           = open_streams (stop_vu_meter env w)
             @ (if meter_opens env then [(VuMeter, i)] else [])
             @ (if listener_open_ok env then [(Listener, i)] else [])
         \<and> (meter_opens env \<and> listener_open_ok env \<longrightarrow>
              length (filter (\<lambda>(ow, d). d = i) (open_streams (fst (start_recording env w))))
                = length (filter (\<lambda>(ow, d). d = i) (open_streams (stop_vu_meter env w))) + 2)
         \<and> vu_stream (fst (start_recording env w)) = (if meter_opens env then Some i else None)
         \<and> (\<not> meter_opens env \<longrightarrow> vu_meter (fst (start_recording env w)) = 0)
         \<and> stt_stop (fst (start_recording env w))
         \<and> snd (start_recording env w) = []"
proof -
  let ?w1 = "w\<lparr>stt_status := status_listening, stt_progress := True,
                btn_start := False, btn_stop := True\<rparr>"
  let ?w2 = "start_vu_meter env (Some i) ?w1"
  have sr: "start_recording env w =
      (?w2\<lparr>stt_stop := True,
          open_streams := open_streams ?w2
            @ (if listener_open_ok env then [(Listener, i)] else [])\<rparr>, [])"
    using assms by (simp add: start_recording_def Let_def)
  have vm: "open_streams ?w2
              = open_streams (stop_vu_meter env w) @ (if meter_opens env then [(VuMeter, i)] else [])"
    "vu_stream ?w2 = (if meter_opens env then Some i else None)"
    "\<not> meter_opens env \<longrightarrow> vu_meter ?w2 = 0"
    using start_vu_meter_streams [of env i ?w1]
    by (simp_all add: open_streams_stop_vu_meter_ui)
  have os: "open_streams (fst (start_recording env w))
           = open_streams (stop_vu_meter env w)
             @ (if meter_opens env then [(VuMeter, i)] else [])
             @ (if listener_open_ok env then [(Listener, i)] else [])"
    unfolding sr using vm(1) by simp
  have cnt: "length (filter (\<lambda>(ow, d). d = i) (open_streams (fst (start_recording env w))))
                = length (filter (\<lambda>(ow, d). d = i) (open_streams (stop_vu_meter env w))) + 2"
    if "meter_opens env \<and> listener_open_ok env"
    unfolding os using that by simp
  have rest: "vu_stream (fst (start_recording env w)) = (if meter_opens env then Some i else None)"
    "\<not> meter_opens env \<longrightarrow> vu_meter (fst (start_recording env w)) = 0"
    "stt_stop (fst (start_recording env w))" "snd (start_recording env w) = []"
    unfolding sr using vm(2,3) by simp_all
  show ?thesis
    using os cnt rest by blast
qed

theorem start_recording_opens_a_stream_per_consumer_witness:
  "\<not> stt_stop idle_window \<and> mic_combo idle_window = Some 0 \<and> active_mics idle_window \<noteq> []
   \<and> mic_init_ok all_ok \<and> meter_opens all_ok \<and> listener_open_ok all_ok
   \<and> open_streams (stop_vu_meter all_ok idle_window) = []
   \<and> open_streams (fst (start_recording all_ok idle_window)) = [(VuMeter, 0), (Listener, 0)]
   \<and> length (filter (\<lambda>(ow, d). d = 0) (open_streams (fst (start_recording all_ok idle_window))))
       = 2
   \<and> vu_stream (fst (start_recording all_ok idle_window)) = Some 0"
proof -
  have h: "\<not> stt_stop idle_window" "mic_combo idle_window = Some 0"
    "active_mics idle_window \<noteq> []" "mic_init_ok all_ok"
    by (simp_all add: idle_window_def all_ok_def)
  have ok: "meter_opens all_ok" "listener_open_ok all_ok"
    by (simp_all add: meter_opens_def all_ok_def)
  have base: "open_streams (stop_vu_meter all_ok idle_window) = []"
    by (simp add: stop_vu_meter_def idle_window_def)
  show ?thesis
    using start_recording_opens_a_stream_per_consumer [OF h] h ok base by simp
qed

text \<open>
  C9 as stated fails: after \<open>start_recording\<close> on device 0 with every library call
  succeeding, two input streams are open on device 0, the meter's and the listener's.
\<close>

theorem start_recording_two_streams_counterexample:
  "start_recording all_ok idle_window = (listening_window, [])
   \<and> open_streams listening_window = [(VuMeter, 0), (Listener, 0)]
   \<and> length (filter (\<lambda>(ow, d). d = 0) (open_streams listening_window)) = 2"
  by (simp add: start_recording_def start_vu_meter_def stop_vu_meter_def Let_def
      idle_window_def listening_window_def all_ok_def)


end
